theory Spec2Isabelle
  imports Complex_Main "HOL-Library.Word"
begin

section \<open>JavaScript values used by the components\<close>

text \<open>
  A JavaScript string is a sequence of 16-bit code units. The literals of the source are
  ASCII; \<open>js\<close> turns an ASCII literal into its code units.
\<close>

type_synonym jsstring = "16 word list"

definition js :: "string \<Rightarrow> jsstring" where
  "js s = map (\<lambda>c. of_char c) s"

text \<open>
  \<open>String.prototype.trim\<close> removes the code units of the ECMAScript productions
  WhiteSpace (TAB, VT, FF, SP, NBSP, ZWNBSP and the Unicode space separators) and
  LineTerminator (LF, CR, LS, PS) from both ends.
\<close>

definition isWhiteSpace :: "16 word \<Rightarrow> bool" where
  "isWhiteSpace c =
     (c = 0x0009 \<or> c = 0x000A \<or> c = 0x000B \<or> c = 0x000C \<or> c = 0x000D \<or> c = 0x0020
      \<or> c = 0x00A0 \<or> c = 0x1680 \<or> (0x2000 \<le> c \<and> c \<le> 0x200A)
      \<or> c = 0x2028 \<or> c = 0x2029 \<or> c = 0x202F \<or> c = 0x205F \<or> c = 0x3000
      \<or> c = 0xFEFF)"

definition trim :: "jsstring \<Rightarrow> jsstring" where
  "trim s = rev (dropWhile isWhiteSpace (rev (dropWhile isWhiteSpace s)))"

text \<open>
  A value of type \<open>string | null\<close> is a \<open>jsstring option\<close>. It is falsy when it is
  \<open>null\<close> or the empty string; \<open>x || d\<close> is \<open>x\<close> when \<open>x\<close> is truthy and \<open>d\<close> otherwise.
\<close>

definition truthy :: "jsstring option \<Rightarrow> bool" where
  "truthy x = (case x of None \<Rightarrow> False | Some s \<Rightarrow> s \<noteq> [])"

definition orElse :: "jsstring option \<Rightarrow> jsstring \<Rightarrow> jsstring" where
  "orElse x d = (case x of None \<Rightarrow> d | Some s \<Rightarrow> if s = [] then d else s)"

text \<open>
  What a rejected \<open>apiRequest\<close> throws: an object whose \<open>message\<close> is a string or is
  missing. A request settles with \<open>Inl\<close> of such an error or \<open>Inr\<close> of the parsed body.
\<close>

datatype jserror = JsError "jsstring option"

fun errMessage :: "jserror \<Rightarrow> jsstring option" where
  "errMessage (JsError m) = m"

datatype httpMethod = GET | POST

section \<open>Data model\<close>

datatype UpdateChannelType = stable | dev | local | custom

record UpdateChannelConfig =
  channel :: UpdateChannelType
  customUrl :: "jsstring option"

text \<open>
  Modelled from the spec: the declarations of \<open>SelfCheckStatus\<close> and \<open>SelfCheckResult\<close>
  (module \<open>SelfCheckTypes\<close>) are not among the sources. The spec gives
  \<open>overallStatus\<close> as an enumeration of \<open>success\<close>, \<open>failure\<close>, \<open>partial\<close> and
  \<open>never_run\<close>, and \<open>scripts\<close> as an ordered mapping from script names to results with
  an optional duration in milliseconds. \<open>scripts\<close> is kept as the list of entries in the
  order \<open>Object.entries\<close> yields them. A duration is a whole number of milliseconds in
  the range a JavaScript number holds exactly, from \<open>-2\<^sup>5\<^sup>3\<close> to below \<open>2\<^sup>5\<^sup>3\<close>: a signed
  54-bit word, read by \<open>sint\<close>.
\<close>

datatype OverallStatus = Success | Failure | Partial | NeverRun

fun overallStatusString :: "OverallStatus \<Rightarrow> jsstring" where
  "overallStatusString Success = js ''success''"
| "overallStatusString Failure = js ''failure''"
| "overallStatusString Partial = js ''partial''"
| "overallStatusString NeverRun = js ''never_run''"

record SelfCheckResult =
  success :: bool
  message :: jsstring
  duration :: "54 word option"

record SelfCheckStatus =
  overallStatus :: OverallStatus
  isRunning :: bool
  lastRun :: "jsstring option"
  connectionError :: "jsstring option"
  scripts :: "(jsstring \<times> SelfCheckResult) list"

text \<open>
  Both components keep \<open>loading\<close> and \<open>error\<close> in \<open>useState\<close> cells; each adds cells of
  its own. \<open>customUrlState\<close> is the cell \<open>customUrl\<close> of \<open>UpdateChannel\<close>, which the
  source keeps beside \<open>config.customUrl\<close>.
\<close>

record componentState =
  loading :: bool
  error :: "jsstring option"

record UpdateChannelState = componentState +
  config :: UpdateChannelConfig
  customUrlState :: jsstring

record SelfCheckState = componentState +
  "checking" :: bool
  status :: "SelfCheckStatus option"

text \<open>
  A handler is modelled by the effects it performs, in order: calls of the state setters,
  of \<open>notify\<close> and of \<open>apiRequest\<close>. The body of a request is the \<open>updateUrl\<close> it
  carries, if any. The settled results of the awaited requests are arguments of the
  handler.
\<close>

datatype effect =
    setLoading bool
  | setChecking bool
  | setError "jsstring option"
  | setStatus SelfCheckStatus
  | setConfig UpdateChannelConfig
  | setCustomUrl jsstring
  | notify jsstring
  | apiRequest jsstring httpMethod "jsstring option"

fun isRequest :: "effect \<Rightarrow> bool" where
  "isRequest (apiRequest p m b) = True"
| "isRequest _ = False"

fun isSetLoading :: "effect \<Rightarrow> bool" where
  "isSetLoading (setLoading b) = True"
| "isSetLoading _ = False"

definition requests :: "effect list \<Rightarrow> effect list" where
  "requests es = filter isRequest es"

section \<open>UpdateChannel\<close>

definition initialUpdateChannel :: UpdateChannelState where
  "initialUpdateChannel =
     \<lparr>loading = False, error = None,
      config = \<lparr>channel = stable, customUrl = Some (js '''')\<rparr>,
      customUrlState = js ''''\<rparr>"

fun applyUpdateChannel :: "UpdateChannelState \<Rightarrow> effect \<Rightarrow> UpdateChannelState" where
  "applyUpdateChannel s (setLoading b) = s\<lparr>loading := b\<rparr>"
| "applyUpdateChannel s (setError e) = s\<lparr>error := e\<rparr>"
| "applyUpdateChannel s (setConfig c) = s\<lparr>config := c\<rparr>"
| "applyUpdateChannel s (setCustomUrl u) = s\<lparr>customUrlState := u\<rparr>"
| "applyUpdateChannel s _ = s"

definition runUpdateChannel :: "UpdateChannelState \<Rightarrow> effect list \<Rightarrow> UpdateChannelState" where
  "runUpdateChannel s es = foldl applyUpdateChannel s es"

text \<open>
  \<open>loadCurrentConfig\<close>, given the settled result of the GET. The body's \<open>updateUrl\<close>
  is a string or \<open>null\<close>; \<open>!updateUrl\<close> holds for \<open>null\<close> and for the empty string.
\<close>

definition loadCurrentConfig :: "jserror + jsstring option \<Rightarrow> effect list" where
  "loadCurrentConfig response =
     apiRequest (js ''/api/admin/update-channel'') GET None #
     (case response of
        Inr None \<Rightarrow> [setConfig \<lparr>channel = stable, customUrl = None\<rparr>]
      | Inr (Some updateUrl) \<Rightarrow>
          (if updateUrl = [] \<or> updateUrl = js '''' then
             [setConfig \<lparr>channel = stable, customUrl = None\<rparr>]
           else if updateUrl = js ''local'' then
             [setConfig \<lparr>channel = local, customUrl = None\<rparr>]
           else if updateUrl =
               js ''https://github.com/Yundera/template-root/archive/refs/heads/main.zip'' then
             [setConfig \<lparr>channel = dev, customUrl = None\<rparr>]
           else
             [setConfig \<lparr>channel = custom, customUrl = Some updateUrl\<rparr>,
              setCustomUrl updateUrl])
      | Inl err \<Rightarrow>
          [setError (Some (orElse (errMessage err)
             (js ''Failed to load update channel configuration'')))])"

definition getUpdateUrl :: "UpdateChannelState \<Rightarrow> jsstring" where
  "getUpdateUrl s =
     (case channel (config s) of
        local \<Rightarrow> js ''local''
      | dev \<Rightarrow> js ''https://github.com/Yundera/template-root/archive/refs/heads/main.zip''
      | custom \<Rightarrow> customUrlState s
      | stable \<Rightarrow> js '''')"

text \<open>
  \<open>handleSaveChannel\<close>, given the state its closure reads and the settled results of the
  two POSTs (the second is awaited only after the first has succeeded).
\<close>

definition handleSaveChannel ::
  "UpdateChannelState \<Rightarrow> jserror + unit \<Rightarrow> jserror + unit \<Rightarrow> effect list" where
  "handleSaveChannel s saved checked =
     [setLoading True, setError None] @
     (if channel (config s) = custom \<and> trim (customUrlState s) = [] then
        [setError (Some (js ''Custom URL is required when using custom channel'')),
         setLoading False]
      else
        apiRequest (js ''/api/admin/update-channel'') POST (Some (getUpdateUrl s)) #
        (case saved of
           Inr _ \<Rightarrow>
             notify (js ''Update channel saved successfully. Running self-check...'') #
             apiRequest (js ''/api/admin/self-check-run'') POST None #
             (case checked of
                Inr _ \<Rightarrow> [notify (js ''Self-check completed successfully'')]
              | Inl err \<Rightarrow>
                  [setError (Some (orElse (errMessage err)
                     (js ''Failed to save update channel'')))])
         | Inl err \<Rightarrow>
             [setError (Some (orElse (errMessage err) (js ''Failed to save update channel'')))])
        @ [setLoading False])"

text \<open>The custom-URL text field is rendered only for the custom channel; it shows the cell.\<close>

definition customUrlField :: "UpdateChannelState \<Rightarrow> jsstring option" where
  "customUrlField s = (if channel (config s) = custom then Some (customUrlState s) else None)"

text \<open>The state after \<open>loadCurrentConfig\<close> has received \<open>updateUrl\<close> from the backend.\<close>

definition afterLoad :: "UpdateChannelState \<Rightarrow> jsstring option \<Rightarrow> UpdateChannelState" where
  "afterLoad s updateUrl = runUpdateChannel s (loadCurrentConfig (Inr updateUrl))"

section \<open>SelfCheck\<close>

definition initialSelfCheck :: SelfCheckState where
  "initialSelfCheck = \<lparr>loading = False, error = None, checking = False, status = None\<rparr>"

fun applySelfCheck :: "SelfCheckState \<Rightarrow> effect \<Rightarrow> SelfCheckState" where
  "applySelfCheck s (setLoading b) = s\<lparr>loading := b\<rparr>"
| "applySelfCheck s (setChecking b) = s\<lparr>checking := b\<rparr>"
| "applySelfCheck s (setError e) = s\<lparr>error := e\<rparr>"
| "applySelfCheck s (setStatus r) = s\<lparr>status := Some r\<rparr>"
| "applySelfCheck s _ = s"

definition runSelfCheck :: "SelfCheckState \<Rightarrow> effect list \<Rightarrow> SelfCheckState" where
  "runSelfCheck s es = foldl applySelfCheck s es"

text \<open>
  \<open>checkStatus\<close> in two parts: what it does up to the \<open>await\<close>, and what it does once
  the GET has settled with \<open>response\<close>.
\<close>

definition checkStatusStart :: "effect list" where
  "checkStatusStart =
     [setChecking True, setError None,
      apiRequest (js ''/api/admin/self-check-status'') GET None]"

definition checkStatusSettle :: "jserror + SelfCheckStatus \<Rightarrow> effect list" where
  "checkStatusSettle response =
     (case response of
        Inr r \<Rightarrow> [setStatus r]
      | Inl err \<Rightarrow>
          [setError (Some (orElse (errMessage err) (js ''Failed to get self-check status'')))])
     @ [setChecking False]"

definition checkStatus :: "jserror + SelfCheckStatus \<Rightarrow> effect list" where
  "checkStatus response = checkStatusStart @ checkStatusSettle response"

text \<open>
  \<open>handleRunSelfCheck\<close>, given the settled results of the POST and of the GET that
  \<open>checkStatus\<close> awaits after it.
\<close>

definition handleRunSelfCheck ::
  "jserror + unit \<Rightarrow> jserror + SelfCheckStatus \<Rightarrow> effect list" where
  "handleRunSelfCheck posted fetched =
     [setLoading True, setError None,
      apiRequest (js ''/api/admin/self-check-run'') POST None] @
     (case posted of
        Inr _ \<Rightarrow> notify (js ''Self-check completed successfully'') # checkStatus fetched
      | Inl err \<Rightarrow> [setError (Some (orElse (errMessage err) (js ''Self-check failed'')))])
     @ [setLoading False]"

subsection \<open>Formatting\<close>

text \<open>The status colours of \<open>softTheme.ts\<close> that \<open>getStatusHexColor\<close> reads.\<close>

definition statusSuccessChip :: jsstring where
  "statusSuccessChip = js ''#66dd74''"

definition statusErrorAlt :: jsstring where
  "statusErrorAlt = js ''#f44336''"

definition statusWarning :: jsstring where
  "statusWarning = js ''#ffa726''"

definition statusInfo :: jsstring where
  "statusInfo = js ''#29b6f6''"

definition getStatusHexColor :: "jsstring \<Rightarrow> jsstring" where
  "getStatusHexColor s =
     (if s = js ''success'' then statusSuccessChip
      else if s = js ''failure'' then statusErrorAlt
      else if s = js ''partial'' then statusWarning
      else if s = js ''never_run'' then statusInfo
      else js ''#bdbdbd'')"

datatype icon = CheckCircleIcon | ErrorIcon

definition getStatusIcon :: "bool \<Rightarrow> icon" where
  "getStatusIcon ok = (if ok then CheckCircleIcon else ErrorIcon)"

text \<open>
  \<open>replace('_', ' ')\<close> replaces the first underscore only. \<open>toUpperCase\<close> is applied to
  the status strings alone; it is modelled on the letters a to z and leaves every other
  code unit as it is.
\<close>

fun replaceUnderscore :: "jsstring \<Rightarrow> jsstring" where
  "replaceUnderscore [] = []"
| "replaceUnderscore (c # cs) = (if c = 0x5F then 0x20 # cs else c # replaceUnderscore cs)"

definition toUpperCase :: "jsstring \<Rightarrow> jsstring" where
  "toUpperCase s = map (\<lambda>c. if 0x61 \<le> c \<and> c \<le> 0x7A then c - 0x20 else c) s"

text \<open>
  The template literal prints a whole number in the exact range by its decimal digits,
  with a minus sign when it is negative.
\<close>

fun digits :: "nat \<Rightarrow> jsstring" where
  "digits n =
     (if n < 10 then [0x30 + of_nat n] else digits (n div 10) @ [0x30 + of_nat (n mod 10)])"

declare digits.simps [simp del]

definition numberToString :: "54 word \<Rightarrow> jsstring" where
  "numberToString n =
     (if sint n < 0 then 0x2D # digits (nat (- sint n)) else digits (nat (sint n)))"

text \<open>
  \<open>duration / 1000\<close> is a binary64 division: the exact quotient rounded to the nearest
  number with a 53-bit significand, ties to the even significand. \<open>binary64\<close> does this
  rounding for a quotient \<open>q \<ge> 1\<close>, the only case \<open>formatDuration\<close> reaches; \<open>ilog2\<close> is the
  exponent.
\<close>

fun ilog2 :: "nat \<Rightarrow> nat" where
  "ilog2 n = (if n < 2 then 0 else Suc (ilog2 (n div 2)))"

declare ilog2.simps [simp del]

definition roundHalfEven :: "real \<Rightarrow> int" where
  "roundHalfEven r =
     (let f = \<lfloor>r\<rfloor>; d = r - of_int f
      in if d < 1 / 2 then f else if 1 / 2 < d then f + 1 else if even f then f else f + 1)"

definition binary64 :: "real \<Rightarrow> real" where
  "binary64 q =
     (let e = ilog2 (nat \<lfloor>q\<rfloor>)
      in of_int (roundHalfEven (q * 2 ^ 52 / 2 ^ e)) * 2 ^ e / 2 ^ 52)"

text \<open>
  \<open>toFixed(1)\<close> for \<open>0 \<le> x < 10\<^sup>2\<^sup>1\<close>: with \<open>n\<close> the integer for which \<open>n / 10 - x\<close> is
  closest to zero, the larger one if there are two, the digits of \<open>n\<close> with a point before
  the last one.
\<close>

definition toFixed1 :: "real \<Rightarrow> jsstring" where
  "toFixed1 x =
     (let n = nat \<lfloor>x * 10 + 1 / 2\<rfloor>
      in digits (n div 10) @ js ''.'' @ digits (n mod 10))"

definition formatDuration :: "54 word option \<Rightarrow> jsstring" where
  "formatDuration d =
     (case d of
        None \<Rightarrow> js ''''
      | Some n \<Rightarrow>
          if n = 0 then js ''''
          else if sint n < 1000 then numberToString n @ js ''ms''
          else toFixed1 (binary64 (of_int (sint n) / 1000)) @ js ''s'')"

subsection \<open>The rendered view\<close>

text \<open>
  The view keeps what \<open>render\<close> decides and leaves styling out. In
  \<open>result.duration && <Chip/>\<close> a missing duration renders nothing, the number 0 renders
  as the text 0, and any other duration renders the chip.
\<close>

datatype durationSlot = NoDuration | TextNode jsstring | DurationChip jsstring

definition durationSlotOf :: "54 word option \<Rightarrow> durationSlot" where
  "durationSlotOf d =
     (case d of
        None \<Rightarrow> NoDuration
      | Some n \<Rightarrow> if n = 0 then TextNode (numberToString 0) else DurationChip (formatDuration d))"

record scriptRow =
  rowIcon :: icon
  rowName :: jsstring
  rowMessage :: jsstring
  rowDuration :: durationSlot

definition scriptRowOf :: "jsstring \<times> SelfCheckResult \<Rightarrow> scriptRow" where
  "scriptRowOf entry =
     (case entry of (scriptName, result) \<Rightarrow>
        \<lparr>rowIcon = getStatusIcon (success result), rowName = scriptName,
         rowMessage = message result, rowDuration = durationSlotOf (duration result)\<rparr>)"

datatype actionArea = Spinner jsstring | RunButton bool

record statusChip =
  chipLabel :: jsstring
  chipColor :: jsstring

record view =
  errorAlert :: "jsstring option"
  chip :: "statusChip option"
  runningIndicator :: bool
  action :: actionArea
  lastRunLine :: "jsstring option"
  connectionAlert :: "jsstring option"
  rows :: "scriptRow list"

definition statusChipOf :: "OverallStatus \<Rightarrow> statusChip" where
  "statusChipOf x =
     \<lparr>chipLabel = toUpperCase (replaceUnderscore (overallStatusString x)),
      chipColor = getStatusHexColor (overallStatusString x)\<rparr>"

definition running :: "SelfCheckStatus option \<Rightarrow> bool" where
  "running st = (case st of None \<Rightarrow> False | Some r \<Rightarrow> isRunning r)"

definition render :: "SelfCheckState \<Rightarrow> view" where
  "render s =
     \<lparr>errorAlert = (if truthy (error s) then error s else None),
      chip = map_option (\<lambda>r. statusChipOf (overallStatus r)) (status s),
      runningIndicator = running (status s),
      action =
        (if loading s \<or> checking s \<or> running (status s) then
           Spinner (if running (status s) then js ''Running...'' else js ''Loading...'')
         else RunButton (loading s \<or> running (status s))),
      lastRunLine =
        (case status s of None \<Rightarrow> None
         | Some r \<Rightarrow> if truthy (lastRun r) then lastRun r else None),
      connectionAlert =
        (case status s of None \<Rightarrow> None
         | Some r \<Rightarrow> if truthy (connectionError r) then connectionError r else None),
      rows = (case status s of None \<Rightarrow> [] | Some r \<Rightarrow> map scriptRowOf (scripts r))\<rparr>"

subsection \<open>The display states of the specification\<close>

text \<open>
  The status presenter as the specification words it: one display state, chosen with
  the precedence error, then running, then the settled state of \<open>overallStatus\<close>, and
  no-data when there is neither a snapshot nor an error.
\<close>

datatype displayState = NoData | ErrorState | Running | Settled OverallStatus

definition presenterSpec ::
  "SelfCheckStatus option \<Rightarrow> bool \<Rightarrow> jsstring option \<Rightarrow> displayState" where
  "presenterSpec snapshot busy err =
     (if err \<noteq> None then ErrorState
      else case snapshot of
             None \<Rightarrow> NoData
           | Some r \<Rightarrow> if isRunning r then Running else Settled (overallStatus r))"

text \<open>
  Which display states a rendered view shows: the error alert, the running indicator,
  the chip of an overall status, or none of the three.
\<close>

fun displays :: "view \<Rightarrow> displayState \<Rightarrow> bool" where
  "displays v NoData = (errorAlert v = None \<and> chip v = None \<and> \<not> runningIndicator v)"
| "displays v ErrorState = (errorAlert v \<noteq> None)"
| "displays v Running = runningIndicator v"
| "displays v (Settled x) = (chip v = Some (statusChipOf x))"

subsection \<open>The polling effect\<close>

text \<open>
  The effect of \<open>SelfCheck\<close> calls \<open>checkStatus\<close>, arms an interval of 2000 ms whose
  callback calls \<open>checkStatus\<close> when the \<open>status\<close> it closed over is running, and returns
  the cleanup that clears this interval. Its dependency is \<open>status?.isRunning\<close>, which is
  \<open>undefined\<close> while \<open>status\<close> is \<open>null\<close>. React runs the effect after the first render, and
  after a later render when the dependency differs from its value at the last run; it
  runs the pending cleanup first.

  A mounted component is its state, the effects performed so far, the armed intervals
  (handle and dependency value closed over), the handle the pending cleanup clears, the
  dependency at the last run of the effect, and the number of GETs not yet settled.
\<close>

definition isRunningDep :: "SelfCheckState \<Rightarrow> bool option" where
  "isRunningDep s = map_option isRunning (status s)"

record mounted =
  component :: SelfCheckState
  performed :: "effect list"
  intervals :: "(nat \<times> bool option) list"
  nextHandle :: nat
  cleanup :: "nat option"
  lastDeps :: "bool option"
  inFlight :: nat

definition initialMounted :: mounted where
  "initialMounted =
     \<lparr>component = initialSelfCheck, performed = [], intervals = [], nextHandle = 0,
      cleanup = None, lastDeps = None, inFlight = 0\<rparr>"

definition perform :: "effect list \<Rightarrow> mounted \<Rightarrow> mounted" where
  "perform es m =
     m\<lparr>component := runSelfCheck (component m) es, performed := performed m @ es\<rparr>"

definition startCheckStatus :: "mounted \<Rightarrow> mounted" where
  "startCheckStatus m = (perform checkStatusStart m)\<lparr>inFlight := Suc (inFlight m)\<rparr>"

definition runEffect :: "mounted \<Rightarrow> mounted" where
  "runEffect m =
     (let d = isRunningDep (component m); m1 = startCheckStatus m; h = nextHandle m1
      in m1\<lparr>intervals := intervals m1 @ [(h, d)], nextHandle := Suc h,
            cleanup := Some h, lastDeps := d\<rparr>)"

definition runCleanup :: "mounted \<Rightarrow> mounted" where
  "runCleanup m =
     (case cleanup m of
        None \<Rightarrow> m
      | Some h \<Rightarrow> m\<lparr>intervals := filter (\<lambda>t. fst t \<noteq> h) (intervals m), cleanup := None\<rparr>)"

definition commit :: "mounted \<Rightarrow> mounted" where
  "commit m =
     (if isRunningDep (component m) = lastDeps m then m else runEffect (runCleanup m))"

definition fire :: "mounted \<Rightarrow> nat \<times> bool option \<Rightarrow> mounted" where
  "fire m t = (if snd t = Some True then startCheckStatus m else m)"

text \<open>
  The component after its first render: the effect has run once on the initial state.
  Afterwards a pending GET settles with a response, or 2000 ms pass on the armed
  intervals and their callbacks fire.
\<close>

definition mountedSelfCheck :: mounted where
  "mountedSelfCheck = runEffect initialMounted"

datatype event = Settle "jserror + SelfCheckStatus" | Tick

fun step :: "mounted \<Rightarrow> event \<Rightarrow> mounted" where
  "step m (Settle response) =
     (if inFlight m = 0 then m
      else commit ((perform (checkStatusSettle response) m)\<lparr>inFlight := inFlight m - 1\<rparr>))"
| "step m Tick = commit (foldl fire m (intervals m))"

definition runEvents :: "event list \<Rightarrow> mounted" where
  "runEvents evs = foldl step mountedSelfCheck evs"

text \<open>At most one interval is armed, and it is the one the pending cleanup clears.\<close>

definition armed :: "mounted \<Rightarrow> bool" where
  "armed m =
     (case intervals m of
        [] \<Rightarrow> cleanup m = None
      | [t] \<Rightarrow> cleanup m = Some (fst t)
      | _ \<Rightarrow> False)"

section \<open>Sample values\<close>

definition snapshot ::
  "OverallStatus \<Rightarrow> bool \<Rightarrow> (jsstring \<times> SelfCheckResult) list \<Rightarrow> SelfCheckStatus" where
  "snapshot x r rs =
     \<lparr>overallStatus = x, isRunning = r, lastRun = None, connectionError = None, scripts = rs\<rparr>"

definition twoPassing :: "(jsstring \<times> SelfCheckResult) list" where
  "twoPassing =
     [(js ''disk'', \<lparr>success = True, message = js ''ok'', duration = Some 12\<rparr>),
      (js ''docker'', \<lparr>success = True, message = js ''ok'', duration = None\<rparr>)]"

text \<open>
  A state the component reaches when a GET fails after an earlier one has returned a
  running snapshot.
\<close>

definition erroredWhileRunning :: SelfCheckState where
  "erroredWhileRunning =
     \<lparr>loading = False, error = Some (js ''Network Error''), checking = False,
      status = Some (snapshot Success True [])\<rparr>"

section \<open>Properties of UpdateChannel\<close>

lemma trim_empty_iff: "trim s = [] \<longleftrightarrow> (\<forall>c \<in> set s. isWhiteSpace c)"
proof
  assume "trim s = []"
  then have "dropWhile isWhiteSpace (rev (dropWhile isWhiteSpace s)) = []"
    by (simp add: trim_def)
  then have all: "\<forall>c \<in> set (dropWhile isWhiteSpace s). isWhiteSpace c"
    using dropWhile_eq_Nil_conv [of isWhiteSpace "rev (dropWhile isWhiteSpace s)"] by simp
  have "dropWhile isWhiteSpace s = []"
  proof (cases "dropWhile isWhiteSpace s")
    case Nil
    then show ?thesis .
  next
    case (Cons x xs)
    then have "\<not> isWhiteSpace x"
      using hd_dropWhile [of isWhiteSpace s] by simp
    moreover have "isWhiteSpace x"
      using all Cons by simp
    ultimately show ?thesis by simp
  qed
  then show "\<forall>c \<in> set s. isWhiteSpace c"
    using dropWhile_eq_Nil_conv [of isWhiteSpace s] by blast
next
  assume "\<forall>c \<in> set s. isWhiteSpace c"
  then have "dropWhile isWhiteSpace s = []"
    using dropWhile_eq_Nil_conv [of isWhiteSpace s] by blast
  then show "trim s = []"
    by (simp only: trim_def rev.simps dropWhile.simps)
qed

text \<open>
  C1. For each of the channels stable, dev and local, the URL that \<open>getUpdateUrl\<close> gives
  for the channel is mapped back to that channel by \<open>loadCurrentConfig\<close>; and each of the
  three sentinel URLs (the empty string, \<open>local\<close>, the archive of the main branch) is
  given back unchanged by \<open>getUpdateUrl\<close> after \<open>loadCurrentConfig\<close> has inferred its
  channel.
\<close>

theorem channel_url_roundtrip:
  "(c \<noteq> custom \<longrightarrow>
      channel (config (afterLoad s'
        (Some (getUpdateUrl (s\<lparr>config := (config s)\<lparr>channel := c\<rparr>\<rparr>))))) = c)
   \<and> (u = js '''' \<or> u = js ''local''
        \<or> u = js ''https://github.com/Yundera/template-root/archive/refs/heads/main.zip'' \<longrightarrow>
      getUpdateUrl (afterLoad s' (Some u)) = u)"
  by (cases c)
    (auto simp: afterLoad_def runUpdateChannel_def loadCurrentConfig_def getUpdateUrl_def js_def)

theorem channel_url_roundtrip_witness:
  "dev \<noteq> custom
   \<and> channel (config (afterLoad initialUpdateChannel
        (Some (getUpdateUrl
          (initialUpdateChannel\<lparr>config := (config initialUpdateChannel)\<lparr>channel := dev\<rparr>\<rparr>))))) = dev
   \<and> getUpdateUrl (afterLoad initialUpdateChannel (Some (js ''local''))) = js ''local''"
  using channel_url_roundtrip
    [of dev initialUpdateChannel initialUpdateChannel "js ''local''"]
  by simp

text \<open>
  C6. A URL that is not empty and is none of the sentinels is inferred as the custom
  channel with \<open>customUrl\<close> equal to that string; the custom-URL field shows it, and
  \<open>getUpdateUrl\<close> gives the same string back.
\<close>

theorem custom_url_carried_through:
  "u \<noteq> [] \<Longrightarrow> u \<noteq> js ''local'' \<Longrightarrow>
   u \<noteq> js ''https://github.com/Yundera/template-root/archive/refs/heads/main.zip'' \<Longrightarrow>
   config (afterLoad s (Some u)) = \<lparr>channel = custom, customUrl = Some u\<rparr>
   \<and> customUrlField (afterLoad s (Some u)) = Some u
   \<and> getUpdateUrl (afterLoad s (Some u)) = u"
  by (simp add: afterLoad_def runUpdateChannel_def loadCurrentConfig_def getUpdateUrl_def
      customUrlField_def js_def)

theorem custom_url_carried_through_witness:
  "js ''https://mycustom/repo.zip'' \<noteq> []
   \<and> js ''https://mycustom/repo.zip'' \<noteq> js ''local''
   \<and> js ''https://mycustom/repo.zip'' \<noteq>
       js ''https://github.com/Yundera/template-root/archive/refs/heads/main.zip''
   \<and> config (afterLoad initialUpdateChannel (Some (js ''https://mycustom/repo.zip''))) =
       \<lparr>channel = custom, customUrl = Some (js ''https://mycustom/repo.zip'')\<rparr>
   \<and> customUrlField (afterLoad initialUpdateChannel (Some (js ''https://mycustom/repo.zip''))) =
       Some (js ''https://mycustom/repo.zip'')
   \<and> getUpdateUrl (afterLoad initialUpdateChannel (Some (js ''https://mycustom/repo.zip''))) =
       js ''https://mycustom/repo.zip''"
proof -
  have a: "js ''https://mycustom/repo.zip'' \<noteq> []"
    by (simp add: js_def)
  have b: "js ''https://mycustom/repo.zip'' \<noteq> js ''local''"
    by (simp add: js_def)
  have c: "js ''https://mycustom/repo.zip'' \<noteq>
      js ''https://github.com/Yundera/template-root/archive/refs/heads/main.zip''"
    by (simp add: js_def)
  show ?thesis
    using a b c custom_url_carried_through [OF a b c, of initialUpdateChannel] by simp
qed

text \<open>
  C4. With the custom channel selected and a custom URL that is empty or consists of
  white space only, \<open>handleSaveChannel\<close> sets the validation message and returns: it
  issues no request, and afterwards only \<open>loading\<close> (false) and \<open>error\<close> (the message)
  are set.
\<close>

theorem custom_empty_url_rejected:
  "channel (config s) = custom \<Longrightarrow> \<forall>c \<in> set (customUrlState s). isWhiteSpace c \<Longrightarrow>
   handleSaveChannel s saved checked =
     [setLoading True, setError None,
      setError (Some (js ''Custom URL is required when using custom channel'')),
      setLoading False]
   \<and> requests (handleSaveChannel s saved checked) = []
   \<and> runUpdateChannel s (handleSaveChannel s saved checked) =
       s\<lparr>loading := False,
         error := Some (js ''Custom URL is required when using custom channel'')\<rparr>"
  by (simp add: handleSaveChannel_def trim_empty_iff requests_def runUpdateChannel_def)

theorem custom_empty_url_rejected_witness:
  "channel (config (initialUpdateChannel\<lparr>config := \<lparr>channel = custom, customUrl = Some (js ''  '')\<rparr>,
      customUrlState := js ''  ''\<rparr>)) = custom
   \<and> list_all isWhiteSpace (customUrlState
        (initialUpdateChannel\<lparr>config := \<lparr>channel = custom, customUrl = Some (js ''  '')\<rparr>,
           customUrlState := js ''  ''\<rparr>))
   \<and> requests (handleSaveChannel
        (initialUpdateChannel\<lparr>config := \<lparr>channel = custom, customUrl = Some (js ''  '')\<rparr>,
           customUrlState := js ''  ''\<rparr>) (Inr ()) (Inr ())) = []"
proof -
  let ?s = "initialUpdateChannel\<lparr>config := \<lparr>channel = custom, customUrl = Some (js ''  '')\<rparr>,
      customUrlState := js ''  ''\<rparr>"
  have a: "channel (config ?s) = custom"
    by simp
  have b: "\<forall>c \<in> set (customUrlState ?s). isWhiteSpace c"
    by (simp add: js_def isWhiteSpace_def)
  have c: "requests (handleSaveChannel ?s (Inr ()) (Inr ())) = []"
    using custom_empty_url_rejected [OF a b, of "Inr ()" "Inr ()"] by blast
  have d: "list_all isWhiteSpace (customUrlState ?s)"
    using b by (simp only: list_all_iff)
  show ?thesis
    using a c d by blast
qed

text \<open>
  C5. Saving with the dev channel POSTs the archive URL of the main branch to
  \<open>/api/admin/update-channel\<close>; when that POST succeeds, a second POST to
  \<open>/api/admin/self-check-run\<close> follows, and these are the only requests. When the first
  POST fails, it is the only request.
\<close>

theorem save_dev_channel:
  "channel (config s) = dev \<Longrightarrow>
   requests (handleSaveChannel s (Inr ()) checked) =
     [apiRequest (js ''/api/admin/update-channel'') POST
        (Some (js ''https://github.com/Yundera/template-root/archive/refs/heads/main.zip'')),
      apiRequest (js ''/api/admin/self-check-run'') POST None]
   \<and> requests (handleSaveChannel s (Inl err) checked) =
     [apiRequest (js ''/api/admin/update-channel'') POST
        (Some (js ''https://github.com/Yundera/template-root/archive/refs/heads/main.zip''))]"
  by (cases checked) (simp_all add: handleSaveChannel_def requests_def getUpdateUrl_def)

theorem save_dev_channel_witness:
  "channel (config (initialUpdateChannel\<lparr>config := \<lparr>channel = dev, customUrl = None\<rparr>\<rparr>)) = dev
   \<and> requests (handleSaveChannel
        (initialUpdateChannel\<lparr>config := \<lparr>channel = dev, customUrl = None\<rparr>\<rparr>)
        (Inr ()) (Inr ())) =
     [apiRequest (js ''/api/admin/update-channel'') POST
        (Some (js ''https://github.com/Yundera/template-root/archive/refs/heads/main.zip'')),
      apiRequest (js ''/api/admin/self-check-run'') POST None]"
proof -
  let ?s = "initialUpdateChannel\<lparr>config := \<lparr>channel = dev, customUrl = None\<rparr>\<rparr>"
  have a: "channel (config ?s) = dev"
    by simp
  show ?thesis
    using a save_dev_channel [OF a, of "Inr ()" "JsError None"] by blast
qed

section \<open>Properties of the SelfCheck handlers\<close>

lemma orElse_truthy: "d \<noteq> [] \<Longrightarrow> truthy (Some (orElse x d))"
  by (simp add: orElse_def truthy_def split: option.splits)

text \<open>
  C3. When the POST to \<open>/api/admin/self-check-run\<close> succeeds, \<open>handleRunSelfCheck\<close>
  issues exactly one GET of the status after it; when that GET fails, the error state
  is set to its message (or the default one) and the error alert is rendered. When the
  POST fails, it is the only request, and the error state is set to its message (or the
  default one) and rendered.
\<close>

theorem run_self_check_follow_up:
  "requests (handleRunSelfCheck (Inr ()) fetched) =
     [apiRequest (js ''/api/admin/self-check-run'') POST None,
      apiRequest (js ''/api/admin/self-check-status'') GET None]
   \<and> error (runSelfCheck s (handleRunSelfCheck (Inr ()) (Inl err))) =
       Some (orElse (errMessage err) (js ''Failed to get self-check status''))
   \<and> errorAlert (render (runSelfCheck s (handleRunSelfCheck (Inr ()) (Inl err)))) \<noteq> None
   \<and> requests (handleRunSelfCheck (Inl err) fetched) =
     [apiRequest (js ''/api/admin/self-check-run'') POST None]
   \<and> error (runSelfCheck s (handleRunSelfCheck (Inl err) fetched)) =
       Some (orElse (errMessage err) (js ''Self-check failed''))
   \<and> errorAlert (render (runSelfCheck s (handleRunSelfCheck (Inl err) fetched))) \<noteq> None"
proof -
  have a: "js ''Failed to get self-check status'' \<noteq> []"
    by (simp add: js_def)
  have b: "js ''Self-check failed'' \<noteq> []"
    by (simp add: js_def)
  have 1: "requests (handleRunSelfCheck (Inr ()) fetched) =
     [apiRequest (js ''/api/admin/self-check-run'') POST None,
      apiRequest (js ''/api/admin/self-check-status'') GET None]"
    by (cases fetched)
      (simp_all add: handleRunSelfCheck_def checkStatus_def checkStatusStart_def
        checkStatusSettle_def requests_def)
  have 2: "error (runSelfCheck s (handleRunSelfCheck (Inr ()) (Inl err))) =
       Some (orElse (errMessage err) (js ''Failed to get self-check status''))"
    by (simp add: handleRunSelfCheck_def checkStatus_def checkStatusStart_def
        checkStatusSettle_def runSelfCheck_def)
  have 3: "requests (handleRunSelfCheck (Inl err) fetched) =
     [apiRequest (js ''/api/admin/self-check-run'') POST None]"
    by (simp add: handleRunSelfCheck_def requests_def)
  have 4: "error (runSelfCheck s (handleRunSelfCheck (Inl err) fetched)) =
       Some (orElse (errMessage err) (js ''Self-check failed''))"
    by (simp add: handleRunSelfCheck_def runSelfCheck_def)
  have 5: "errorAlert (render (runSelfCheck s (handleRunSelfCheck (Inr ()) (Inl err)))) \<noteq> None"
    using orElse_truthy [OF a] by (simp add: render_def 2)
  have 6: "errorAlert (render (runSelfCheck s (handleRunSelfCheck (Inl err) fetched))) \<noteq> None"
    using orElse_truthy [OF b] by (simp add: render_def 4)
  show ?thesis
    using 1 2 3 4 5 6 by blast
qed

lemma handleRunSelfCheck_shape:
  "\<exists>mid. handleRunSelfCheck posted fetched = setLoading True # mid @ [setLoading False]
     \<and> filter isSetLoading mid = []"
  by (cases posted; cases fetched)
    (simp_all add: handleRunSelfCheck_def checkStatus_def checkStatusStart_def
      checkStatusSettle_def)

lemma handleSaveChannel_shape:
  "\<exists>mid. handleSaveChannel s saved checked = setLoading True # mid @ [setLoading False]
     \<and> filter isSetLoading mid = []"
  by (cases saved; cases checked) (simp_all add: handleSaveChannel_def)

lemma loading_after_run: "loading (runSelfCheck s (es @ [setLoading b])) = b"
  by (simp add: runSelfCheck_def)

lemma loading_after_save: "loading (runUpdateChannel s (es @ [setLoading b])) = b"
  by (simp add: runUpdateChannel_def)

text \<open>
  C9. Whatever the requests answer and whatever the state, \<open>handleRunSelfCheck\<close> and
  \<open>handleSaveChannel\<close> begin with \<open>setLoading(true)\<close>, end with \<open>setLoading(false)\<close> and
  call \<open>setLoading\<close> nowhere in between: every request lies between the two calls, and
  the flag is false once the handler is done. This covers success, a failed first
  request, a failed follow-up and the validation rejection.
\<close>

theorem busy_flag_bracket:
  "hd (handleRunSelfCheck posted fetched) = setLoading True
   \<and> last (handleRunSelfCheck posted fetched) = setLoading False
   \<and> filter isSetLoading (handleRunSelfCheck posted fetched) =
       [setLoading True, setLoading False]
   \<and> loading (runSelfCheck s (handleRunSelfCheck posted fetched)) = False
   \<and> hd (handleSaveChannel u saved checked) = setLoading True
   \<and> last (handleSaveChannel u saved checked) = setLoading False
   \<and> filter isSetLoading (handleSaveChannel u saved checked) =
       [setLoading True, setLoading False]
   \<and> loading (runUpdateChannel u (handleSaveChannel u saved checked)) = False"
proof -
  obtain mid where m:
      "handleRunSelfCheck posted fetched = setLoading True # mid @ [setLoading False]"
    and f: "filter isSetLoading mid = []"
    using handleRunSelfCheck_shape by blast
  obtain mid' where m':
      "handleSaveChannel u saved checked = setLoading True # mid' @ [setLoading False]"
    and f': "filter isSetLoading mid' = []"
    using handleSaveChannel_shape by blast
  have 1: "loading (runSelfCheck s (handleRunSelfCheck posted fetched)) = False"
    using loading_after_run [of s "setLoading True # mid" False] by (simp add: m)
  have 2: "loading (runUpdateChannel u (handleSaveChannel u saved checked)) = False"
    using loading_after_save [of u "setLoading True # mid'" False] by (simp add: m')
  show ?thesis
    using 1 2 f f' by (simp add: m m')
qed

section \<open>Properties of the rendered view\<close>

lemma statusChipOf_inj: "statusChipOf x = statusChipOf y \<longleftrightarrow> x = y"
  by (cases x; cases y) (simp_all add: statusChipOf_def toUpperCase_def js_def)

lemma chipLabel_values:
  "chipLabel (statusChipOf Success) = js ''SUCCESS''"
  "chipLabel (statusChipOf Failure) = js ''FAILURE''"
  "chipLabel (statusChipOf Partial) = js ''PARTIAL''"
  "chipLabel (statusChipOf NeverRun) = js ''NEVER RUN''"
  by (simp_all add: statusChipOf_def toUpperCase_def js_def)

text \<open>
  C8. The rows of the view are the entries of \<open>scripts\<close> in their order, and the icon of
  a row is the passing one exactly when \<open>success\<close> of its result is true; changing
  \<open>overallStatus\<close> changes no row. In particular a partial snapshot whose scripts all
  succeeded renders, one row per script, every row with the passing icon.
\<close>

theorem script_rows_from_success:
  "status s = Some r \<Longrightarrow>
   map rowIcon (rows (render s)) =
     map (\<lambda>entry. getStatusIcon (success (snd entry))) (scripts r)
   \<and> map rowName (rows (render s)) = map fst (scripts r)
   \<and> (getStatusIcon ok = CheckCircleIcon) = ok
   \<and> rows (render (s\<lparr>status := Some (r\<lparr>overallStatus := x\<rparr>)\<rparr>)) = rows (render s)
   \<and> (overallStatus r = Partial \<and> (\<forall>entry \<in> set (scripts r). success (snd entry)) \<longrightarrow>
        length (rows (render s)) = length (scripts r)
        \<and> (\<forall>row \<in> set (rows (render s)). rowIcon row = CheckCircleIcon))"
  by (auto simp: render_def scriptRowOf_def getStatusIcon_def split: prod.splits)

theorem script_rows_from_success_witness:
  "status (initialSelfCheck\<lparr>status := Some (snapshot Partial False twoPassing)\<rparr>) =
     Some (snapshot Partial False twoPassing)
   \<and> overallStatus (snapshot Partial False twoPassing) = Partial
   \<and> list_all (\<lambda>entry. success (snd entry)) (scripts (snapshot Partial False twoPassing))
   \<and> map rowIcon
        (rows (render (initialSelfCheck\<lparr>status := Some (snapshot Partial False twoPassing)\<rparr>))) =
       [CheckCircleIcon, CheckCircleIcon]"
proof -
  let ?s = "initialSelfCheck\<lparr>status := Some (snapshot Partial False twoPassing)\<rparr>"
  have a: "status ?s = Some (snapshot Partial False twoPassing)"
    by simp
  have b: "overallStatus (snapshot Partial False twoPassing) = Partial"
    by (simp add: snapshot_def)
  have c: "list_all (\<lambda>entry. success (snd entry)) (scripts (snapshot Partial False twoPassing))"
    by (simp add: snapshot_def twoPassing_def)
  have d: "map rowIcon (rows (render ?s)) = [CheckCircleIcon, CheckCircleIcon]"
    using script_rows_from_success [OF a, of True Partial]
    by (simp add: snapshot_def twoPassing_def getStatusIcon_def)
  show ?thesis
    using a b c d by blast
qed

text \<open>
  C7, as claimed, fails: the view has no single display state. With an error set and a
  running snapshot in the state, the mapping of the claim gives the error state alone,
  while the rendered view shows the error alert, the running indicator and the chip of
  the overall status together.
\<close>

theorem presenter_states_not_exclusive:
  "presenterSpec (status erroredWhileRunning) False (error erroredWhileRunning) = ErrorState
   \<and> displays (render erroredWhileRunning) ErrorState
   \<and> displays (render erroredWhileRunning) Running
   \<and> displays (render erroredWhileRunning) (Settled Success)"
  by (simp add: erroredWhileRunning_def presenterSpec_def render_def truthy_def running_def
      snapshot_def js_def)

text \<open>
  C7, amended. The view is a function of the state with three independent indicators:
  the error alert is shown exactly when the error is a non-empty string; the running
  indicator exactly when a snapshot is present and running; the chip of an overall
  status exactly when a snapshot with that status is present, running or not, error or
  not; and none of the three is shown exactly when there is neither a snapshot nor an
  error. When there is no error and no running snapshot, the one state shown is the
  state of the claimed mapping.
\<close>

theorem presenter_indicators:
  "displays (render s) ErrorState = truthy (error s)
   \<and> displays (render s) Running = running (status s)
   \<and> displays (render s) (Settled x) = (map_option overallStatus (status s) = Some x)
   \<and> displays (render s) NoData = (status s = None \<and> \<not> truthy (error s))
   \<and> (error s = None \<and> \<not> running (status s) \<longrightarrow>
        displays (render s) d = (d = presenterSpec (status s) busy (error s)))"
proof -
  have 1: "displays (render s) ErrorState = truthy (error s)"
    by (simp add: render_def truthy_def split: option.splits)
  have 2: "displays (render s) Running = running (status s)"
    by (simp add: render_def)
  have 3: "displays (render s) (Settled y) = (map_option overallStatus (status s) = Some y)"
    for y
    by (cases "status s") (simp_all add: render_def statusChipOf_inj)
  have 4: "displays (render s) NoData = (status s = None \<and> \<not> truthy (error s))"
    by (cases "status s") (auto simp: render_def running_def truthy_def split: option.splits)
  have 5: "error s = None \<and> \<not> running (status s) \<longrightarrow>
        displays (render s) d = (d = presenterSpec (status s) busy (error s))"
  proof
    assume h: "error s = None \<and> \<not> running (status s)"
    then have t: "\<not> truthy (error s)"
      by (simp add: truthy_def)
    show "displays (render s) d = (d = presenterSpec (status s) busy (error s))"
    proof (cases d)
      case NoData
      then show ?thesis
        using h t 4 by (auto simp: presenterSpec_def running_def split: option.splits)
    next
      case ErrorState
      then show ?thesis
        using h t 1 by (auto simp: presenterSpec_def split: option.splits)
    next
      case Running
      then show ?thesis
        using h 2 by (auto simp: presenterSpec_def running_def split: option.splits)
    next
      case (Settled y)
      then show ?thesis
        using h 3 [of y] unfolding Settled
        by (auto simp: presenterSpec_def running_def split: option.splits)
    qed
  qed
  show ?thesis
    using 1 2 3 4 5 by blast
qed

theorem presenter_indicators_witness:
  "error (initialSelfCheck\<lparr>status := Some (snapshot Failure False [])\<rparr>) = None
   \<and> \<not> running (status (initialSelfCheck\<lparr>status := Some (snapshot Failure False [])\<rparr>))
   \<and> displays (render (initialSelfCheck\<lparr>status := Some (snapshot Failure False [])\<rparr>))
        (Settled Failure)
   \<and> \<not> displays (render (initialSelfCheck\<lparr>status := Some (snapshot Failure False [])\<rparr>))
        Running
   \<and> presenterSpec (status (initialSelfCheck\<lparr>status := Some (snapshot Failure False [])\<rparr>))
        False (error (initialSelfCheck\<lparr>status := Some (snapshot Failure False [])\<rparr>)) =
       Settled Failure"
proof -
  let ?s = "initialSelfCheck\<lparr>status := Some (snapshot Failure False [])\<rparr>"
  have a: "error ?s = None"
    by (simp add: initialSelfCheck_def)
  have b: "\<not> running (status ?s)"
    by (simp add: running_def snapshot_def)
  have c: "presenterSpec (status ?s) False (error ?s) = Settled Failure"
    by (simp add: presenterSpec_def snapshot_def initialSelfCheck_def)
  have d: "displays (render ?s) (Settled Failure)"
    using presenter_indicators [of ?s Failure "Settled Failure" False] a b c by simp
  have e: "\<not> displays (render ?s) Running"
    using presenter_indicators [of ?s Failure Running False] a b c by simp
  show ?thesis
    using a b c d e by blast
qed

section \<open>Properties of the polling effect\<close>

lemma armed_startCheckStatus: "armed m \<Longrightarrow> armed (startCheckStatus m)"
  by (auto simp: armed_def startCheckStatus_def perform_def split: list.splits)

lemma armed_perform: "armed m \<Longrightarrow> armed ((perform es m)\<lparr>inFlight := k\<rparr>)"
  by (auto simp: armed_def perform_def split: list.splits)

lemma armed_runCleanup:
  "armed m \<Longrightarrow> intervals (runCleanup m) = [] \<and> cleanup (runCleanup m) = None"
  by (auto simp: armed_def runCleanup_def split: list.splits option.splits)

lemma armed_runEffect: "intervals m = [] \<Longrightarrow> armed (runEffect m)"
  by (simp add: armed_def runEffect_def startCheckStatus_def perform_def Let_def)

lemma armed_commit: "armed m \<Longrightarrow> armed (commit m)"
  by (simp add: commit_def armed_runEffect armed_runCleanup)

lemma armed_fire: "armed m \<Longrightarrow> armed (foldl fire m ts)"
  by (induction ts arbitrary: m) (simp_all add: fire_def armed_startCheckStatus)

lemma armed_step: "armed m \<Longrightarrow> armed (step m ev)"
  by (cases ev) (simp_all add: armed_commit armed_perform armed_fire)

lemma armed_mounted: "armed mountedSelfCheck"
  by (simp add: mountedSelfCheck_def armed_runEffect initialMounted_def)

lemma armed_foldl: "armed m \<Longrightarrow> armed (foldl step m evs)"
  by (induction evs arbitrary: m) (simp_all add: armed_step)

lemma one_interval_armed: "length (intervals (runEvents evs)) \<le> 1"
proof -
  have "armed (runEvents evs)"
    by (simp add: runEvents_def armed_foldl armed_mounted)
  then show ?thesis
    by (auto simp: armed_def split: list.splits)
qed

lemmas poll_defs = runEvents_def mountedSelfCheck_def initialMounted_def initialSelfCheck_def
  runEffect_def runCleanup_def commit_def startCheckStatus_def perform_def fire_def
  isRunningDep_def checkStatusStart_def checkStatusSettle_def runSelfCheck_def snapshot_def
  requests_def Let_def

text \<open>
  C2. The component fetches once on mount. When that GET settles with a snapshot, the
  dependency \<open>status?.isRunning\<close> changes from \<open>undefined\<close> to a boolean, so the effect
  runs again and calls \<open>checkStatus\<close> at once: a second GET is issued with no interval
  having fired, whether the snapshot is running or not.
\<close>

theorem refetch_on_dependency_change:
  "requests (performed (runEvents [])) =
     [apiRequest (js ''/api/admin/self-check-status'') GET None]
   \<and> requests (performed (runEvents [Settle (Inr (snapshot Success False []))])) =
     [apiRequest (js ''/api/admin/self-check-status'') GET None,
      apiRequest (js ''/api/admin/self-check-status'') GET None]
   \<and> requests (performed (runEvents [Settle (Inr (snapshot Success True []))])) =
     [apiRequest (js ''/api/admin/self-check-status'') GET None,
      apiRequest (js ''/api/admin/self-check-status'') GET None]"
  by (simp add: poll_defs)

text \<open>
  Further schedules: while the snapshot stays running each firing of the interval
  fetches once; a snapshot that is not running stops the interval's fetches; the change
  from running to not running fetches once more at once; a failed first GET is not
  followed by another.
\<close>

lemma poll_examples:
  "length (requests (performed (runEvents
      [Settle (Inr (snapshot Success True [])), Settle (Inr (snapshot Success True [])), Tick]))) = 3"
  "length (requests (performed (runEvents
      [Settle (Inr (snapshot Success False [])), Settle (Inr (snapshot Success False [])),
       Tick, Tick]))) = 2"
  "length (requests (performed (runEvents
      [Settle (Inr (snapshot Success True [])), Settle (Inr (snapshot Success True [])), Tick,
       Settle (Inr (snapshot Success False []))]))) = 4"
  "length (requests (performed (runEvents [Settle (Inl (JsError None)), Tick, Tick]))) = 1"
  by (simp_all add: poll_defs)

section \<open>Properties of the duration format\<close>

lemma ilog2_le: "0 < m \<Longrightarrow> 2 ^ ilog2 m \<le> m"
proof (induction m rule: ilog2.induct)
  case (1 n)
  show ?case
  proof (cases "n < 2")
    case True
    then show ?thesis using 1(2) by (simp add: ilog2.simps)
  next
    case False
    then have "0 < n div 2" by simp
    then have "2 ^ ilog2 (n div 2) \<le> n div 2" using 1(1) False by simp
    then have "2 * 2 ^ ilog2 (n div 2) \<le> n" by simp
    then show ?thesis using False by (simp add: ilog2.simps [of n])
  qed
qed

lemma roundHalfEven_near: "\<bar>real_of_int (roundHalfEven r) - r\<bar> \<le> 1 / 2"
proof -
  have "real_of_int \<lfloor>r\<rfloor> \<le> r" "r < real_of_int \<lfloor>r\<rfloor> + 1" by linarith+
  then show ?thesis
    by (auto simp: roundHalfEven_def Let_def)
qed

lemma binary64_near:
  assumes "1 \<le> q"
  shows "\<bar>binary64 q - q\<bar> \<le> q / 2 ^ 53"
proof -
  define e where "e = ilog2 (nat \<lfloor>q\<rfloor>)"
  define k where "k = roundHalfEven (q * 2 ^ 52 / 2 ^ e)"
  have x: "binary64 q = real_of_int k * 2 ^ e / 2 ^ 52"
    by (simp add: binary64_def Let_def e_def k_def)
  have "0 < nat \<lfloor>q\<rfloor>" using assms by simp
  then have "(2::nat) ^ e \<le> nat \<lfloor>q\<rfloor>" unfolding e_def by (rule ilog2_le)
  then have "real ((2::nat) ^ e) \<le> real (nat \<lfloor>q\<rfloor>)" by (simp only: of_nat_le_iff)
  also have "\<dots> \<le> q" using assms by simp
  finally have pow: "(2::real) ^ e \<le> q" by simp
  have near: "\<bar>real_of_int k - q * 2 ^ 52 / 2 ^ e\<bar> \<le> 1 / 2"
    unfolding k_def by (rule roundHalfEven_near)
  define A where "A = real_of_int k - q * 2 ^ 52 / 2 ^ e"
  define B where "B = (2::real) ^ e / 2 ^ 52"
  have B0: "0 \<le> B" by (simp add: B_def)
  have eq: "binary64 q - q = A * B"
    by (simp add: x A_def B_def field_simps)
  have "\<bar>binary64 q - q\<bar> = \<bar>A\<bar> * \<bar>B\<bar>"
    unfolding eq by (rule abs_mult)
  then have s1: "\<bar>binary64 q - q\<bar> = \<bar>A\<bar> * B"
    using B0 by simp
  have s2: "\<bar>A\<bar> * B \<le> (1 / 2) * B"
    using near B0 unfolding A_def [symmetric] by (rule mult_right_mono)
  have s3: "(1 / 2) * B = 2 ^ e / 2 ^ 53"
    by (simp add: B_def)
  have s4: "(2::real) ^ e / 2 ^ 53 \<le> q / 2 ^ 53"
    using pow by (simp add: divide_right_mono)
  show ?thesis
    using s1 s2 s3 s4 by linarith
qed

lemma tenths_near:
  assumes "1000 \<le> n" "n < 2 ^ 53"
  defines "m \<equiv> \<lfloor>binary64 (real_of_int n / 1000) * 10 + 1 / 2\<rfloor>"
  shows "\<bar>real_of_int m / 10 - real_of_int n / 1000\<bar> \<le> 1 / 20" and "0 \<le> m"
proof -
  define q where "q = real_of_int n / 1000"
  define x where "x = binary64 q"
  have q1: "1 \<le> q" using assms(1) by (simp add: q_def)
  have "q / 2 ^ 53 < 1 / 1000"
  proof -
    have "real_of_int n < 2 ^ 53" using assms(2) by (metis of_int_less_iff of_int_numeral of_int_power)
    then show ?thesis by (simp add: q_def)
  qed
  then have "\<bar>x - q\<bar> < 1 / 1000" using binary64_near [OF q1] by (simp add: x_def)
  then have d: "x < q + 1 / 1000" "q - 1 / 1000 < x" by linarith+
  define K where "K = n div 100"
  define r where "r = n mod 100"
  have n: "n = 100 * K + r" and r: "0 \<le> r" "r < 100" by (simp_all add: K_def r_def)
  have qK: "q * 10 = real_of_int K + real_of_int r / 100" by (simp add: q_def n)
  have m: "m = \<lfloor>x * 10 + 1 / 2\<rfloor>" by (simp add: m_def x_def q_def)
  have lo: "real_of_int m \<le> x * 10 + 1 / 2" and hi: "x * 10 + 1 / 2 < real_of_int m + 1"
    unfolding m by linarith+
  have rr: "real_of_int r \<le> 49 \<or> real_of_int r = 50 \<or> 51 \<le> real_of_int r"
  proof -
    have "r \<le> 49 \<or> r = 50 \<or> 51 \<le> r" by arith
    then show ?thesis by (metis of_int_le_iff of_int_numeral)
  qed
  have K0: "0 \<le> K" using assms(1) by (simp add: K_def pos_imp_zdiv_nonneg_iff)
  have rb: "0 \<le> real_of_int r" "real_of_int r < 100" using r by simp_all
  have mK: "m = K \<and> real_of_int r \<le> 50 \<or> m = K + 1 \<and> 50 \<le> real_of_int r"
  proof -
    have "real_of_int K - 1 < real_of_int m" "real_of_int m < real_of_int K + 2"
      using lo hi d qK rb by linarith+
    then have c: "m = K \<or> m = K + 1" by linarith
    have "m = K \<longrightarrow> real_of_int r \<le> 50"
      using lo hi d qK rb rr by auto
    moreover have "m = K + 1 \<longrightarrow> 50 \<le> real_of_int r"
      using lo hi d qK rb rr by auto
    ultimately show ?thesis
      using c by blast
  qed
  show "0 \<le> m" using mK K0 by auto
  have nn: "real_of_int n / 1000 = real_of_int K / 10 + real_of_int r / 1000"
    using n by simp
  show "\<bar>real_of_int m / 10 - real_of_int n / 1000\<bar> \<le> 1 / 20"
  proof (cases "m = K")
    case True
    then have r50: "real_of_int r \<le> 50" using mK by auto
    have "real_of_int m / 10 - real_of_int n / 1000 = - (real_of_int r / 1000)"
      by (simp add: nn True)
    then show ?thesis using rb(1) r50 by (simp add: abs_le_iff)
  next
    case False
    then have mm: "m = K + 1" and r50: "50 \<le> real_of_int r" using mK by auto
    have "real_of_int m / 10 - real_of_int n / 1000 = (100 - real_of_int r) / 1000"
      by (simp add: nn mm field_simps)
    then show ?thesis using rb(2) r50 by (simp add: abs_le_iff)
  qed
qed

text \<open>
  What \<open>formatDuration\<close> and the duration slot give for a duration that is not 0: the
  chip labelled by \<open>formatDuration\<close>; below 1000 the number followed by \<open>ms\<close>; from 1000
  on the digits of a number of tenths \<open>m\<close>, with the point before the last digit,
  followed by \<open>s\<close>, where \<open>m / 10\<close> is within one twentieth of the duration in seconds,
  that is, the duration rounded to one decimal.
\<close>

lemma duration_format:
  "(n \<noteq> 0 \<longrightarrow> durationSlotOf (Some n) = DurationChip (formatDuration (Some n)))
   \<and> (k \<noteq> 0 \<and> sint k < 1000 \<longrightarrow> formatDuration (Some k) = numberToString k @ js ''ms'')
   \<and> (1000 \<le> sint d \<longrightarrow>
        (\<exists>m. formatDuration (Some d) = digits (m div 10) @ js ''.'' @ digits (m mod 10) @ js ''s''
          \<and> \<bar>real m / 10 - real_of_int (sint d) / 1000\<bar> \<le> 1 / 20))"
proof -
  have 3: "n \<noteq> 0 \<longrightarrow> durationSlotOf (Some n) = DurationChip (formatDuration (Some n))"
    by (simp add: durationSlotOf_def)
  have 4: "k \<noteq> 0 \<and> sint k < 1000 \<longrightarrow> formatDuration (Some k) = numberToString k @ js ''ms''"
    by (simp add: formatDuration_def)
  have 5: "1000 \<le> sint d \<longrightarrow>
        (\<exists>m. formatDuration (Some d) = digits (m div 10) @ js ''.'' @ digits (m mod 10) @ js ''s''
          \<and> \<bar>real m / 10 - real_of_int (sint d) / 1000\<bar> \<le> 1 / 20)"
  proof
    assume h: "1000 \<le> sint d"
    have lt: "sint d < 2 ^ 53"
      using sint_lt [of d] by simp
    have nz: "d \<noteq> 0"
      using h by auto
    define z where "z = \<lfloor>binary64 (real_of_int (sint d) / 1000) * 10 + 1 / 2\<rfloor>"
    have near: "\<bar>real_of_int z / 10 - real_of_int (sint d) / 1000\<bar> \<le> 1 / 20"
      and z0: "0 \<le> z"
      using tenths_near [of "sint d"] h lt unfolding z_def by blast+
    have f: "formatDuration (Some d) =
        digits (nat z div 10) @ js ''.'' @ digits (nat z mod 10) @ js ''s''"
      using h nz by (simp add: formatDuration_def toFixed1_def Let_def z_def)
    have "real (nat z) = real_of_int z"
      using z0 by simp
    then have "\<bar>real (nat z) / 10 - real_of_int (sint d) / 1000\<bar> \<le> 1 / 20"
      using near by simp
    then show "\<exists>m. formatDuration (Some d) =
        digits (m div 10) @ js ''.'' @ digits (m mod 10) @ js ''s''
          \<and> \<bar>real m / 10 - real_of_int (sint d) / 1000\<bar> \<le> 1 / 20"
      using f by blast
  qed
  show ?thesis
    using 3 4 5 by blast
qed

lemma formatDuration_250: "formatDuration (Some 250) = js ''250ms''"
  by (simp add: formatDuration_def numberToString_def digits.simps js_def)

lemma formatDuration_1150: "formatDuration (Some 1150) = js ''1.1s''"
  by (simp add: formatDuration_def binary64_def ilog2.simps roundHalfEven_def toFixed1_def
      digits.simps js_def Let_def)

lemma formatDuration_1250: "formatDuration (Some 1250) = js ''1.3s''"
  by (simp add: formatDuration_def binary64_def ilog2.simps roundHalfEven_def toFixed1_def
      digits.simps js_def Let_def)

lemma formatDuration_negative: "formatDuration (Some (- 5)) = js ''-5ms''"
  by (simp add: formatDuration_def numberToString_def digits.simps js_def)

text \<open>
  C10. A duration of 0 is not rendered like a missing one. \<open>formatDuration\<close> gives the
  empty string for both and neither renders a chip, but the guard
  \<open>result.duration && <Chip/>\<close> renders nothing for a missing duration and the text 0 for
  the duration 0, so the row of a script that took 0 ms shows a 0 after its message.
\<close>

theorem zero_duration_renders_text:
  "formatDuration None = js ''''
   \<and> formatDuration (Some 0) = js ''''
   \<and> durationSlotOf None = NoDuration
   \<and> durationSlotOf (Some 0) = TextNode (js ''0'')
   \<and> durationSlotOf (Some 0) \<noteq> durationSlotOf None
   \<and> rowDuration (scriptRowOf (name, \<lparr>success = ok, message = msg, duration = Some 0\<rparr>)) =
       TextNode (js ''0'')
   \<and> rowDuration (scriptRowOf (name, \<lparr>success = ok, message = msg, duration = None\<rparr>)) =
       NoDuration"
  by (simp add: formatDuration_def durationSlotOf_def scriptRowOf_def numberToString_def
      digits.simps js_def)

end
